theory Spec2Isabelle
  imports Main "HOL-Library.Word" "HOL-Library.Sublist"
begin

section \<open>Exceptions, outcomes and observable events\<close>

text \<open>
  The three kinds of thrown value that \<open>main\<close> (main.cc, lines 336-347) tells apart:
  the project's \<open>Exception\<close> (with its diagnostic information), a \<open>std::exception\<close>
  (with its \<open>what()\<close>), and anything else.
\<close>

datatype exn = GrException string | StdException string | OtherThrow

text \<open>
  A call that does not return a value ends in one of three ways: an exception propagates,
  the thread blocks for ever (\<open>result.get_future().get()\<close> on a promise nobody fulfils),
  or the C++ semantics leaves the behaviour undefined.
\<close>

datatype abort = Thrown exn | Blocked | Undefined

datatype log_level = debug | verbose | info | warning | error | critical

datatype http_method = GET | POST | PUT | DEL | HEAD

datatype status_code = OK | BadRequest

datatype gcry_command = GCRYCTL_DISABLE_SECMEM | GCRYCTL_INITIALIZATION_FINISHED

datatype arg_kind = NoArg | StringArg | UnsignedArg

text \<open>Values of the configuration (\<open>json/Val.hh\<close>): only strings are read by main.cc.\<close>

datatype val = Str string | Null | NonString

text \<open>
  Every effect main.cc has on the outside world is an event of the trace, in program order:
  output on the standard streams, log lines, and calls into the collaborators
  (configuration, HTTP agent, OAuth2 token, listener, syncer and drive).
\<close>

datatype event =
    Gcry_control gcry_command
  | Stderr string
  | Stdout string
  | Stdout_desc "(string \<times> string \<times> arg_kind \<times> string) list"
  | Stdout_version
  | Log string log_level
  | CompositeLog_ctor
  | DefaultLog_file_ctor string
  | Console_Enable log_level
  | LogBase_Inst
  | Config_ctor
  | Config_Set string val
  | Config_Save
  | CurlAgent_ctor
  | ResponseLog_ctor string
  | SetLog
  | ProgressBar_ctor
  | SetProgressReporter
  | setShowProgressBar bool
  | OAuth2_ctor_auth string string string
  | OAuth2_ctor_refresh string string string string
  | Token_Auth string
  | Listener_open string
  | Listener_support http_method
  | Read_second "string option"
  | Reply status_code string
  | Promise_set_value string
  | Listener_close
  | AuthAgent_ctor
  | Syncer2_ctor
  | SetUploadSpeed "32 word"
  | SetDownloadSpeed "32 word"
  | Drive_ctor
  | DetectChanges
  | Update
  | SaveState
  | DryRun

section \<open>Inputs of a run\<close>

text \<open>
  The request as the handler of \<open>AuthCode\<close> sees it: its method, the map that
  \<open>uri::split_query(req.request_uri().query())\<close> returns (as an association list) and
  \<open>req.absolute_uri().to_string()\<close>.
\<close>

record http_request =
  req_method :: http_method
  query_params :: "(string \<times> string) list"
  absolute_uri :: string

text \<open>
  The \<open>po::variables_map\<close> after \<open>po::store\<close>: one field per option of \<open>desc\<close>
  (lines 174-198). \<open>vm.count("x")\<close> is 1 when the flag is set or the value is present.
\<close>

record variables_map =
  vm_help :: bool
  vm_version :: bool
  vm_auth :: bool
  vm_id :: "string option"
  vm_secret :: "string option"
  vm_print_url :: bool
  vm_path :: "string option"
  vm_redirect_uri :: "string option"
  vm_dir :: "string option"
  vm_verbose :: bool
  vm_log_http :: "string option"
  vm_new_rev :: bool
  vm_debug :: bool
  vm_log :: "string option"
  vm_force :: bool
  vm_upload_only :: bool
  vm_no_remote_new :: bool
  vm_dry_run :: bool
  vm_upload_speed :: "32 word option"
  vm_download_speed :: "32 word option"
  vm_progress_bar :: bool

text \<open>
  What the world outside main.cc decides in one run.
  \<^item> \<open>gcry_check_version\<close>: the result of the libgcrypt version check.
  \<^item> \<open>parsed\<close>: the options stored by \<open>po::store(po::parse_command_line(...))\<close>, or
    \<open>None\<close> when it throws \<open>po::error\<close>.
  \<^item> \<open>raises\<close>: whether a collaborator call, made after the given history, throws.
  \<^item> \<open>APP_ID\<close>, \<open>APP_SECRET\<close>: the build-time macros behind \<open>default_id\<close> and
    \<open>default_secret\<close>.
  \<^item> \<open>loaded_config\<close>, \<open>config_Filename\<close>: the content and the name of the
    configuration file as \<open>Config config(vm)\<close> loads it.
  \<^item> \<open>MakeAuthURL\<close>, \<open>RefreshToken\<close>: what the OAuth2 token built from id, secret and
    redirect URI answers, the latter after \<open>Auth(code)\<close>.
  \<^item> \<open>open_fails\<close>, \<open>incoming\<close>, \<open>close_fails\<close>: the listener of \<open>AuthCode\<close>:
    whether opening or closing it throws, and the requests that reach it, in order.
  \<^item> \<open>end_second\<close>: what reading \<open>found_code->second\<close> through \<open>params.end()\<close>
    gives in this run, which C++ leaves undefined: \<open>None\<close> when the run does not get
    past the read, \<open>Some s\<close> when the read yields the string \<open>s\<close>.
  \<^item> \<open>failed_paths\<close>: the paths \<open>drive.Update()\<close> could not reconcile. Modelled from
    the spec: Drive is not in src; \<open>Update()\<close> hands nothing back to \<open>Main\<close>.
\<close>

record env =
  gcry_check_version :: bool
  parsed :: "variables_map option"
  raises :: "event list \<Rightarrow> event \<Rightarrow> exn option"
  APP_ID :: string
  APP_SECRET :: string
  loaded_config :: "string \<rightharpoonup> val"
  config_Filename :: string
  MakeAuthURL :: "string \<Rightarrow> string \<Rightarrow> string \<Rightarrow> string"
  RefreshToken :: "string \<Rightarrow> string"
  open_fails :: "exn option"
  incoming :: "http_request list"
  close_fails :: "exn option"
  end_second :: "string option"
  failed_paths :: "string list"

section \<open>Sequencing with exceptions over a trace\<close>

type_synonym 'a prog = "event list \<Rightarrow> (abort + 'a) \<times> event list"

definition ret :: "'a \<Rightarrow> 'a prog" where
  "ret x tr = (Inr x, tr)"

definition throw :: "exn \<Rightarrow> 'a prog" where
  "throw x tr = (Inl (Thrown x), tr)"

definition block :: "'a prog" where
  "block tr = (Inl Blocked, tr)"

definition undefined_behaviour :: "'a prog" where
  "undefined_behaviour tr = (Inl Undefined, tr)"

definition bnd :: "'a prog \<Rightarrow> ('a \<Rightarrow> 'b prog) \<Rightarrow> 'b prog" where
  "bnd m f tr = (case m tr of (Inl a, tr') \<Rightarrow> (Inl a, tr') | (Inr x, tr') \<Rightarrow> f x tr')"

definition seq :: "unit prog \<Rightarrow> 'b prog \<Rightarrow> 'b prog" where
  "seq m n = bnd m (\<lambda>_. n)"

definition emit :: "event \<Rightarrow> unit prog" where
  "emit e tr = (Inr (), tr @ [e])"

text \<open>
  A collaborator call: it is recorded when made, and either returns or throws. Output on
  the standard streams and log lines (\<open>emit\<close>) are recorded and do not throw.
\<close>

definition call :: "env \<Rightarrow> event \<Rightarrow> unit prog" where
  "call E e tr =
     (case raises E tr e of None \<Rightarrow> (Inr (), tr @ [e]) | Some x \<Rightarrow> (Inl (Thrown x), tr @ [e]))"

definition if_then :: "bool \<Rightarrow> unit prog \<Rightarrow> unit prog" where
  "if_then b m = (if b then m else ret ())"

section \<open>AuthCode (main.cc, lines 113-166)\<close>

definition missing_code_msg :: string where
  "missing_code_msg =
     ''grive2 authorization code redirect missing 'code' query parameter.\<newline>\<newline>Try the auth flow again.''"

definition received_code_msg :: string where
  "received_code_msg = ''Received grive2 authorization code. You may now close this window.''"

text \<open>
  Line 152, \<open>auto code = found_code->second\<close>: the read is made whatever \<open>found_code\<close>
  is. Through \<open>params.end()\<close> it is undefined, and \<open>end_second\<close> says what it gives.
\<close>

definition read_second :: "env \<Rightarrow> string option \<Rightarrow> string prog" where
  "read_second E found_code =
     seq (emit (Read_second found_code))
         (case found_code of
            Some code \<Rightarrow> ret code
          | None \<Rightarrow> (case end_second E of Some s \<Rightarrow> ret s | None \<Rightarrow> undefined_behaviour))"

text \<open>
  The handler registered for GET (lines 132-157). The branch for a missing code replies
  BadRequest and does not return: lines 152-156 follow in every case, with the read of
  \<open>found_code->second\<close>, the reply OK and \<open>result.set_value(code)\<close>.
\<close>

definition handler :: "env \<Rightarrow> http_request \<Rightarrow> string prog" where
  "handler E req =
     (let params = map_of (query_params req);
          found_code = params ''code''
      in seq (if found_code = None
              then seq (emit (Stdout (''request received without auth code: '' @ absolute_uri req)))
                       (emit (Reply BadRequest missing_code_msg))
              else ret ())
        (bnd (read_second E found_code) (\<lambda>code.
         seq (emit (Stdout ''received authorization code''))
        (seq (emit (Reply OK received_code_msg))
        (seq (emit (Promise_set_value code))
             (ret code))))))"

text \<open>
  \<open>result.get_future().get()\<close> (line 160): the caller waits until the handler has set
  the promise. Only GET requests reach the handler; there is no timer, so with no more
  requests to come the wait never ends.
\<close>

fun await :: "env \<Rightarrow> http_request list \<Rightarrow> string prog" where
  "await E [] = block"
| "await E (req # reqs) = (if req_method req = GET then handler E req else await E reqs)"

definition AuthCode :: "env \<Rightarrow> string \<Rightarrow> string prog" where
  "AuthCode E uri =
     seq (emit (Listener_open uri))
    (seq (case open_fails E of Some x \<Rightarrow> throw x | None \<Rightarrow> ret ())
    (seq (emit (Stdout (''\<newline>Listening on '' @ uri @ '' for an authorization code from Google'')))
    (seq (emit (Listener_support GET))
    (bnd (await E (incoming E)) (\<lambda>code.
     seq (emit Listener_close)
    (seq (case close_fails E of Some x \<Rightarrow> throw x | None \<Rightarrow> ret ())
         (ret code)))))))"

section \<open>The options (main.cc, lines 173-198)\<close>

text \<open>
  \<open>desc\<close>: long name, short name (empty when there is none), the value the option
  takes, and its help text.
\<close>

definition desc :: "(string \<times> string \<times> arg_kind \<times> string) list" where
  "desc =
    [(''help'', ''h'', NoArg, ''Produce help message''),
     (''version'', ''v'', NoArg, ''Display Grive version''),
     (''auth'', ''a'', NoArg, ''Request authorization token''),
     (''id'', ''i'', StringArg, ''Authentication ID''),
     (''secret'', ''e'', StringArg, ''Authentication secret''),
     (''print-url'', [], NoArg, ''Only print url for request''),
     (''path'', ''p'', StringArg, ''Path to working copy root''),
     (''redirect-uri'', [], StringArg, ''local URI on which to listen for auth redirect''),
     (''dir'', ''s'', StringArg, ''Single subdirectory to sync''),
     (''verbose'', ''V'', NoArg, ''Verbose mode. Enable more messages than normal.''),
     (''log-http'', [], StringArg, ''Log all HTTP responses in this file for debugging.''),
     (''new-rev'', [], NoArg, ''Create new revisions in server for updated files.''),
     (''debug'', ''d'', NoArg, ''Enable debug level messages. Implies -v.''),
     (''log'', ''l'', StringArg, ''Set log output filename.''),
     (''force'', ''f'', NoArg,
        ''Force grive to always download a file from Google Drive instead of uploading it.''),
     (''upload-only'', ''u'', NoArg,
        ''Do not download anything from Google Drive, only upload local changes''),
     (''no-remote-new'', ''n'', NoArg,
        ''Download only files that are changed in Google Drive and already exist locally''),
     (''dry-run'', [], NoArg,
        ''Only detect which files need to be uploaded/downloaded, without actually performing them.''),
     (''upload-speed'', ''U'', UnsignedArg, ''Limit upload speed in kbytes per second''),
     (''download-speed'', ''D'', UnsignedArg, ''Limit download speed in kbytes per second''),
     (''progress-bar'', ''P'', NoArg, ''Enable progress bar for upload/download of files'')]"

definition option_names :: "string list" where
  "option_names = map fst desc"

text \<open>\<open>desc\<close> declares an option of this long name.\<close>

definition declared :: "string \<Rightarrow> bool" where
  "declared name = (name \<in> set option_names)"

section \<open>InitGCrypt and InitLog (main.cc, lines 63-109)\<close>

definition InitGCrypt :: "env \<Rightarrow> unit prog" where
  "InitGCrypt E =
     (if \<not> gcry_check_version E then throw (StdException ''libgcrypt version mismatch'')
      else seq (emit (Gcry_control GCRYCTL_DISABLE_SECMEM))
               (emit (Gcry_control GCRYCTL_INITIALIZATION_FINISHED)))"

text \<open>
  The file log, when \<open>--log\<close> names one, has every level enabled and receives two lines
  of its own; only its construction is recorded here.
\<close>

definition InitLog :: "env \<Rightarrow> variables_map \<Rightarrow> unit prog" where
  "InitLog E vm =
     seq (call E CompositeLog_ctor)
    (seq (case vm_log vm of Some name \<Rightarrow> call E (DefaultLog_file_ctor name) | None \<Rightarrow> ret ())
    (seq (if_then (vm_verbose vm) (emit (Console_Enable verbose)))
    (seq (if_then (vm_debug vm)
            (seq (emit (Console_Enable verbose)) (emit (Console_Enable debug))))
         (emit LogBase_Inst))))"

section \<open>The configuration\<close>

text \<open>
  Modelled from the spec: Config and Val (util/Config.hh, json/Val.hh) are not in src.
  \<open>config.Get(key)\<close> answers the stored value, or a null value for a key that is
  missing; \<open>Str()\<close> of a value that is not a string throws the project's Exception,
  which is what the handler at line 289 catches.
\<close>

definition Get :: "(string \<rightharpoonup> val) \<Rightarrow> string \<Rightarrow> val" where
  "Get cfg key = (case cfg key of Some v \<Rightarrow> v | None \<Rightarrow> Null)"

definition Str_of :: "val \<Rightarrow> string prog" where
  "Str_of v = (case v of Str s \<Rightarrow> ret s | _ \<Rightarrow> throw (GrException ''bad type''))"

definition try_catch_Exception :: "'a prog \<Rightarrow> (string \<Rightarrow> 'a prog) \<Rightarrow> 'a prog" where
  "try_catch_Exception body catch tr =
     (case body tr of
        (Inl (Thrown (GrException d)), tr') \<Rightarrow> catch d tr'
      | r \<Rightarrow> r)"

section \<open>Main (main.cc, lines 168-328)\<close>

definition first_time_msg :: string where
  "first_time_msg =
     ''Please run grive with the \"-a\" option if this is the first time you're accessing your Google Drive!''"

text \<open>Lines 308-327: the sync phase. \<open>pb\<close> tells whether the progress bar exists.\<close>

definition Main_sync :: "env \<Rightarrow> variables_map \<Rightarrow> bool \<Rightarrow> int prog" where
  "Main_sync E vm pb =
     seq (call E Drive_ctor)
    (seq (call E DetectChanges)
    (seq (if \<not> vm_dry_run vm
          then seq (if_then pb (emit (setShowProgressBar True)))
              (seq (call E Update)
              (seq (if_then pb (emit (setShowProgressBar False)))
                   (call E SaveState)))
          else call E DryRun)
    (seq (call E Config_Save)
    (seq (emit (Log ''Finished!'' info))
         (ret 0)))))"

text \<open>Lines 299-306: the token, the authenticated agent, the syncer, the two rate limits.\<close>

definition Main_agent ::
  "env \<Rightarrow> variables_map \<Rightarrow> bool \<Rightarrow> string \<Rightarrow> string \<Rightarrow> string \<Rightarrow> string \<Rightarrow> int prog" where
  "Main_agent E vm pb refresh_token id' secret redirect_uri =
     seq (call E (OAuth2_ctor_refresh refresh_token id' secret redirect_uri))
    (seq (call E AuthAgent_ctor)
    (seq (call E Syncer2_ctor)
    (seq (case vm_upload_speed vm of
            Some u \<Rightarrow> call E (SetUploadSpeed (u * 1000)) | None \<Rightarrow> ret ())
    (seq (case vm_download_speed vm of
            Some d \<Rightarrow> call E (SetDownloadSpeed (d * 1000)) | None \<Rightarrow> ret ())
         (Main_sync E vm pb)))))"

text \<open>
  Lines 278-297: the four credentials are read inside a try block; the handler logs and
  returns -1 (\<open>Inl\<close> carries the early return value out of the block).
\<close>

definition Main_credentials ::
  "env \<Rightarrow> variables_map \<Rightarrow> bool \<Rightarrow> (string \<rightharpoonup> val) \<Rightarrow> int prog" where
  "Main_credentials E vm pb cfg =
     bnd (try_catch_Exception
            (bnd (Str_of (Get cfg ''refresh_token'')) (\<lambda>refresh_token.
             bnd (Str_of (Get cfg ''id'')) (\<lambda>id'.
             bnd (Str_of (Get cfg ''secret'')) (\<lambda>secret.
             bnd (Str_of (Get cfg ''redirect-uri'')) (\<lambda>redirect_uri.
             ret (Inr (refresh_token, id', secret, redirect_uri)))))))
            (\<lambda>d. seq (emit (Log first_time_msg critical)) (ret (Inl (- 1)))))
       (\<lambda>r. case r of
               Inl status \<Rightarrow> ret status
             | Inr (refresh_token, id', secret, redirect_uri) \<Rightarrow>
                 Main_agent E vm pb refresh_token id' secret redirect_uri)"

text \<open>Lines 243-276: the authorization flow, run when \<open>--auth\<close> is given.\<close>

definition Main_auth ::
  "env \<Rightarrow> variables_map \<Rightarrow> bool \<Rightarrow> (string \<rightharpoonup> val) \<Rightarrow> int prog" where
  "Main_auth E vm pb cfg =
     (if vm_auth vm
      then
        (let id' = (case vm_id vm of Some i \<Rightarrow> i | None \<Rightarrow> APP_ID E);
             secret = (case vm_secret vm of Some s \<Rightarrow> s | None \<Rightarrow> APP_SECRET E)
         in bnd (Str_of (Get cfg ''redirect-uri'')) (\<lambda>redirect_uri.
            seq (call E (OAuth2_ctor_auth id' secret redirect_uri))
           (if vm_print_url vm
            then seq (emit (Stdout (MakeAuthURL E id' secret redirect_uri))) (ret 0)
            else
              seq (emit (Stdout (''-----------------------\<newline>''
                     @ ''Please go to this URL to authorize the app:\<newline>\<newline>''
                     @ MakeAuthURL E id' secret redirect_uri)))
             (bnd (AuthCode E redirect_uri) (\<lambda>code.
              seq (call E (Token_Auth code))
             (seq (emit (Config_Set ''id'' (Str id')))
             (seq (emit (Config_Set ''secret'' (Str secret)))
             (seq (emit (Config_Set ''refresh_token'' (Str (RefreshToken E code))))
             (seq (emit (Config_Set ''redirect-uri'' (Str redirect_uri)))
             (seq (call E Config_Save)
                  (Main_credentials E vm pb
                     (cfg(''id'' \<mapsto> Str id', ''secret'' \<mapsto> Str secret,
                          ''refresh_token'' \<mapsto> Str (RefreshToken E code),
                          ''redirect-uri'' \<mapsto> Str redirect_uri)))))))))))))
      else Main_credentials E vm pb cfg)"

text \<open>Lines 225-241: logging, the configuration, the HTTP agent, the progress bar.\<close>

definition Main_setup :: "env \<Rightarrow> variables_map \<Rightarrow> int prog" where
  "Main_setup E vm =
     seq (InitLog E vm)
    (seq (call E Config_ctor)
    (seq (emit (Log (''config file name '' @ config_Filename E) verbose))
    (seq (call E CurlAgent_ctor)
    (seq (case vm_log_http vm of
            Some name \<Rightarrow> seq (call E (ResponseLog_ctor name)) (emit SetLog)
          | None \<Rightarrow> ret ())
    (seq (if_then (vm_progress_bar vm)
            (seq (call E ProgressBar_ctor) (emit SetProgressReporter)))
         (Main_auth E vm (vm_progress_bar vm) (loaded_config E)))))))"

text \<open>
  Lines 168-223: the options are parsed; \<open>--help\<close> and \<open>--version\<close> return at once.
  No option of \<open>desc\<close> is required, so \<open>po::notify\<close> has nothing to report.
\<close>

definition Main :: "env \<Rightarrow> int prog" where
  "Main E =
     seq (InitGCrypt E)
    (case parsed E of
       None \<Rightarrow> seq (emit (Stderr ''Options are incorrect. Use -h for help\<newline>'')) (ret (- 1))
     | Some vm \<Rightarrow>
         if vm_help vm then seq (emit (Stdout_desc desc)) (ret 0)
         else if vm_version vm then seq (emit Stdout_version) (ret 0)
         else Main_setup E vm)"

section \<open>main (main.cc, lines 330-349)\<close>

text \<open>
  The process: the trace of the whole run, and its exit status unless the run blocks or
  is undefined. Every exception that leaves \<open>Main\<close> is logged and turned into -1.
\<close>

definition main :: "env \<Rightarrow> (abort + int) \<times> event list" where
  "main E =
     (case Main E [] of
        (Inl (Thrown (GrException d)), tr) \<Rightarrow> (Inr (- 1), tr @ [Log (''exception: '' @ d) critical])
      | (Inl (Thrown (StdException w)), tr) \<Rightarrow> (Inr (- 1), tr @ [Log (''exception: '' @ w) critical])
      | (Inl (Thrown OtherThrow), tr) \<Rightarrow> (Inr (- 1), tr @ [Log ''unexpected exception'' critical])
      | r \<Rightarrow> r)"

section \<open>Reading a run\<close>

text \<open>The calls on the drive, in the order they occur in the trace.\<close>

definition sync_op :: "event \<Rightarrow> bool" where
  "sync_op e = (e = DetectChanges \<or> e = Update \<or> e = SaveState \<or> e = DryRun)"



text \<open>The events of the sync phase (lines 308-323).\<close>

definition sync_phase :: "event \<Rightarrow> bool" where
  "sync_phase e = (e = Drive_ctor \<or> sync_op e)"

text \<open>
  The events that need the credentials (lines 299-323): the refreshing token, the
  authenticated agent, the syncer, the rate limits, and the sync phase.
\<close>

definition after_credentials :: "event \<Rightarrow> bool" where
  "after_credentials e =
     (case e of
        OAuth2_ctor_refresh t i s r \<Rightarrow> True
      | AuthAgent_ctor \<Rightarrow> True
      | Syncer2_ctor \<Rightarrow> True
      | SetUploadSpeed w \<Rightarrow> True
      | SetDownloadSpeed w \<Rightarrow> True
      | _ \<Rightarrow> sync_phase e)"

text \<open>
  The events of the authorization exchange (lines 267-275): the listener of
  \<open>AuthCode\<close>, \<open>token.Auth\<close>, and the credentials written to the configuration.
\<close>

definition code_exchange :: "event \<Rightarrow> bool" where
  "code_exchange e =
     (case e of
        Listener_open u \<Rightarrow> True
      | Listener_support m \<Rightarrow> True
      | Read_second c \<Rightarrow> True
      | Reply st msg \<Rightarrow> True
      | Promise_set_value c \<Rightarrow> True
      | Listener_close \<Rightarrow> True
      | Token_Auth c \<Rightarrow> True
      | Config_Set k v \<Rightarrow> True
      | Config_Save \<Rightarrow> True
      | _ \<Rightarrow> False)"

text \<open>The log line \<open>main\<close> writes for an exception (lines 338, 342, 346).\<close>

definition exception_log :: "exn \<Rightarrow> event" where
  "exception_log x =
     (case x of
        GrException d \<Rightarrow> Log (''exception: '' @ d) critical
      | StdException w \<Rightarrow> Log (''exception: '' @ w) critical
      | OtherThrow \<Rightarrow> Log ''unexpected exception'' critical)"

text \<open>
  \<open>leads A P K m\<close>: from any trace, \<open>m\<close> appends events that all satisfy \<open>P\<close> and then
  either stops with an abort of \<open>A\<close> or goes on as one of the programs of \<open>K\<close>.
\<close>

definition leads ::
  "abort set \<Rightarrow> (event \<Rightarrow> bool) \<Rightarrow> 'a prog set \<Rightarrow> 'a prog \<Rightarrow> bool" where
  "leads A P K m =
     (\<forall>tr. \<exists>ev. list_all P ev \<and>
        ((\<exists>a\<in>A. m tr = (Inl a, tr @ ev)) \<or> (\<exists>k\<in>K. m tr = k (tr @ ev))))"

text \<open>The events of lines 168-241: start-up, help and version, logging, configuration, HTTP agent.\<close>

definition setup_ev :: "event \<Rightarrow> bool" where
  "setup_ev e =
     (case e of
        Gcry_control c \<Rightarrow> True
      | Stderr s \<Rightarrow> True
      | Stdout_desc d \<Rightarrow> True
      | Stdout_version \<Rightarrow> True
      | CompositeLog_ctor \<Rightarrow> True
      | DefaultLog_file_ctor n \<Rightarrow> True
      | Console_Enable l \<Rightarrow> True
      | LogBase_Inst \<Rightarrow> True
      | Config_ctor \<Rightarrow> True
      | Log m l \<Rightarrow> l = verbose
      | CurlAgent_ctor \<Rightarrow> True
      | ResponseLog_ctor n \<Rightarrow> True
      | SetLog \<Rightarrow> True
      | ProgressBar_ctor \<Rightarrow> True
      | SetProgressReporter \<Rightarrow> True
      | _ \<Rightarrow> False)"

text \<open>The events of lines 243-265: the token of the authorization flow and the printed URL.\<close>

definition auth_ev :: "event \<Rightarrow> bool" where
  "auth_ev e = (case e of OAuth2_ctor_auth i s r \<Rightarrow> True | Stdout s \<Rightarrow> True | _ \<Rightarrow> False)"

text \<open>The event of lines 289-297: the log line for missing credentials.\<close>

definition cred_ev :: "event \<Rightarrow> bool" where
  "cred_ev e = (e = Log first_time_msg critical)"

text \<open>The events of lines 299-306, with the rate limits as computed from the options.\<close>

definition agent_ev :: "variables_map \<Rightarrow> event \<Rightarrow> bool" where
  "agent_ev vm e =
     (case e of
        OAuth2_ctor_refresh t i s r \<Rightarrow> True
      | AuthAgent_ctor \<Rightarrow> True
      | Syncer2_ctor \<Rightarrow> True
      | SetUploadSpeed w \<Rightarrow>
          (case vm_upload_speed vm of Some u \<Rightarrow> w = u * 1000 | None \<Rightarrow> False)
      | SetDownloadSpeed w \<Rightarrow>
          (case vm_download_speed vm of Some d \<Rightarrow> w = d * 1000 | None \<Rightarrow> False)
      | _ \<Rightarrow> False)"

text \<open>A key of the configuration holds a string, so that \<open>Get(key).Str()\<close> returns.\<close>

definition has_str :: "(string \<rightharpoonup> val) \<Rightarrow> string \<Rightarrow> bool" where
  "has_str cfg key = (case cfg key of Some (Str s) \<Rightarrow> True | _ \<Rightarrow> False)"

text \<open>The four credentials \<open>Main\<close> reads at lines 284-287 are all there.\<close>

definition has_credentials :: "(string \<rightharpoonup> val) \<Rightarrow> bool" where
  "has_credentials cfg =
     (has_str cfg ''refresh_token'' \<and> has_str cfg ''id'' \<and> has_str cfg ''secret'' \<and>
      has_str cfg ''redirect-uri'')"

text \<open>The events of lines 243-275: the authorization flow with its exchange.\<close>

definition auth_flow_ev :: "event \<Rightarrow> bool" where
  "auth_flow_ev e = (auth_ev e \<or> code_exchange e)"

text \<open>The id and the secret the authorization flow uses (lines 245-250).\<close>

definition auth_id :: "env \<Rightarrow> variables_map \<Rightarrow> string" where
  "auth_id E vm = (case vm_id vm of Some i \<Rightarrow> i | None \<Rightarrow> APP_ID E)"

definition auth_secret :: "env \<Rightarrow> variables_map \<Rightarrow> string" where
  "auth_secret E vm = (case vm_secret vm of Some s \<Rightarrow> s | None \<Rightarrow> APP_SECRET E)"

text \<open>Lines 257-258: what \<open>--print-url\<close> does with the redirect URI \<open>u\<close>.\<close>

definition print_url_only :: "env \<Rightarrow> variables_map \<Rightarrow> string \<Rightarrow> int prog" where
  "print_url_only E vm u =
     seq (emit (Stdout (MakeAuthURL E (auth_id E vm) (auth_secret E vm) u))) (ret 0)"

text \<open>The events of lines 168-297: everything before the refreshing token is built.\<close>

definition before_agent :: "event \<Rightarrow> bool" where
  "before_agent e = (setup_ev e \<or> auth_flow_ev e \<or> cred_ev e)"

text \<open>The events of lines 308-326: the sync phase and the end of the run.\<close>

definition sync_ev :: "event \<Rightarrow> bool" where
  "sync_ev e =
     (case e of
        setShowProgressBar b \<Rightarrow> True
      | Config_Save \<Rightarrow> True
      | Log m l \<Rightarrow> l = info
      | _ \<Rightarrow> sync_phase e)"

section \<open>Concrete runs\<close>

text \<open>A plain sync: no option given, the four credentials in the configuration, no call throws.\<close>

definition vm0 :: variables_map where
  "vm0 = \<lparr>vm_help = False, vm_version = False, vm_auth = False, vm_id = None, vm_secret = None,
     vm_print_url = False, vm_path = None, vm_redirect_uri = None, vm_dir = None,
     vm_verbose = False, vm_log_http = None, vm_new_rev = False, vm_debug = False,
     vm_log = None, vm_force = False, vm_upload_only = False, vm_no_remote_new = False,
     vm_dry_run = False, vm_upload_speed = None, vm_download_speed = None,
     vm_progress_bar = False\<rparr>"

definition env0 :: env where
  "env0 = \<lparr>gcry_check_version = True, parsed = Some vm0, raises = (\<lambda>h e. None),
     APP_ID = ''app-id'', APP_SECRET = ''app-secret'',
     loaded_config = [''refresh_token'' \<mapsto> Str ''rt'', ''id'' \<mapsto> Str ''cid'',
        ''secret'' \<mapsto> Str ''cs'', ''redirect-uri'' \<mapsto> Str ''http://localhost:9898''],
     config_Filename = ''.grive'',
     MakeAuthURL = (\<lambda>i s r. ''https://accounts.google.com/o/oauth2/auth?client_id='' @ i),
     RefreshToken = (\<lambda>c. ''refresh-'' @ c),
     open_fails = None, incoming = [], close_fails = None, end_second = None,
     failed_paths = []\<rparr>"


definition denied_req :: http_request where
  "denied_req = \<lparr>req_method = GET, query_params = [(''error'', ''access_denied'')],
     absolute_uri = ''http://localhost:9898/?error=access_denied''\<rparr>"



text \<open>The plain sync in which the drive could not reconcile one path.\<close>

definition env_failed :: env where
  "env_failed = env0\<lparr>failed_paths := [''a.txt'']\<rparr>"

text \<open>A first run: nothing in the configuration, no \<open>--auth\<close>.\<close>

definition env_nocred :: env where
  "env_nocred = env0\<lparr>loaded_config := Map.empty\<rparr>"


text \<open>A run with \<open>--help\<close>.\<close>

definition env_help :: env where
  "env_help = env0\<lparr>parsed := Some (vm0\<lparr>vm_help := True\<rparr>)\<rparr>"

text \<open>A run with \<open>--auth\<close> and \<open>--print-url\<close>.\<close>

definition env_print :: env where
  "env_print = env0\<lparr>parsed := Some (vm0\<lparr>vm_auth := True, vm_print_url := True\<rparr>)\<rparr>"

section \<open>Facts about AuthCode\<close>

lemmas prog_defs = ret_def throw_def block_def undefined_behaviour_def bnd_def seq_def emit_def
  call_def if_then_def





section \<open>Runs that lead to a later part of the program\<close>

text \<open>
  Rules for \<open>leads\<close>, one for each way a program is put together. They let a fact
  about a run be proved part by part: which events a part may add, how it may stop, and
  where the run goes on.
\<close>

lemma leads_ret: "ret x \<in> K \<Longrightarrow> leads A P K (ret x)"
  unfolding leads_def by (intro allI exI[of _ "[]"]) auto

lemma leads_refl: "k \<in> K \<Longrightarrow> leads A P K k"
  unfolding leads_def by (intro allI exI[of _ "[]"]) auto

lemma leads_throw: "Thrown x \<in> A \<Longrightarrow> leads A P K (throw x)"
  unfolding leads_def by (intro allI exI[of _ "[]"]) (auto simp: throw_def)

lemma leads_block: "Blocked \<in> A \<Longrightarrow> leads A P K block"
  unfolding leads_def by (intro allI exI[of _ "[]"]) (auto simp: block_def)

lemma leads_undefined: "Undefined \<in> A \<Longrightarrow> leads A P K undefined_behaviour"
  unfolding leads_def by (intro allI exI[of _ "[]"]) (auto simp: undefined_behaviour_def)

lemma leads_emit: "P e \<Longrightarrow> leads A P (range ret) (emit e)"
  unfolding leads_def by (intro allI exI[of _ "[e]"]) (auto simp: emit_def ret_def)

lemma leads_call:
  assumes "P e" and "\<And>h x. raises E h e = Some x \<Longrightarrow> Thrown x \<in> A"
  shows "leads A P (range ret) (call E e)"
  unfolding leads_def
proof (intro allI exI[of _ "[e]"] conjI)
  fix tr
  show "list_all P [e]" using assms(1) by simp
  show "(\<exists>a\<in>A. call E e tr = (Inl a, tr @ [e])) \<or> (\<exists>k\<in>range ret. call E e tr = k (tr @ [e]))"
    using assms(2)[of tr] by (cases "raises E tr e") (auto simp: call_def ret_def)
qed

lemma leads_bnd:
  assumes m: "leads A P (range ret) m" and f: "\<And>x. leads A P K (f x)"
  shows "leads A P K (bnd m f)"
  unfolding leads_def
proof
  fix tr
  from m obtain ev where ev: "list_all P ev"
    and c: "(\<exists>a\<in>A. m tr = (Inl a, tr @ ev)) \<or> (\<exists>k\<in>range ret. m tr = k (tr @ ev))"
    unfolding leads_def by blast
  from c show "\<exists>ev. list_all P ev \<and>
        ((\<exists>a\<in>A. bnd m f tr = (Inl a, tr @ ev)) \<or> (\<exists>k\<in>K. bnd m f tr = k (tr @ ev)))"
  proof
    assume "\<exists>a\<in>A. m tr = (Inl a, tr @ ev)"
    then show ?thesis using ev by (auto simp: bnd_def)
  next
    assume "\<exists>k\<in>range ret. m tr = k (tr @ ev)"
    then obtain x where x: "m tr = (Inr x, tr @ ev)" by (auto simp: ret_def)
    from f[of x] obtain ev' where ev': "list_all P ev'"
      and c': "(\<exists>a\<in>A. f x (tr @ ev) = (Inl a, (tr @ ev) @ ev')) \<or> (\<exists>k\<in>K. f x (tr @ ev) = k ((tr @ ev) @ ev'))"
      unfolding leads_def by blast
    have "bnd m f tr = f x (tr @ ev)" using x by (simp add: bnd_def)
    with c' ev ev' show ?thesis
      by (intro exI[of _ "ev @ ev'"]) auto
  qed
qed

lemma leads_seq:
  "leads A P (range ret) m \<Longrightarrow> leads A P K n \<Longrightarrow> leads A P K (seq m n)"
  unfolding seq_def by (rule leads_bnd)

lemma leads_if_then:
  "(b \<Longrightarrow> leads A P (range ret) m) \<Longrightarrow> leads A P (range ret) (if_then b m)"
  by (simp add: if_then_def leads_ret)

lemma leads_D:
  assumes "leads A P K m"
  obtains ev where "list_all P ev" and "(\<exists>a\<in>A. m [] = (Inl a, ev)) \<or> (\<exists>k\<in>K. m [] = k ev)"
  using assms unfolding leads_def by (metis append_Nil)

lemma leads_case_option:
  "(x = None \<Longrightarrow> leads A P K a) \<Longrightarrow> (\<And>y. x = Some y \<Longrightarrow> leads A P K (b y)) \<Longrightarrow>
     leads A P K (case x of None \<Rightarrow> a | Some y \<Rightarrow> b y)"
  by (cases x) simp_all

lemma leads_if:
  "(c \<Longrightarrow> leads A P K a) \<Longrightarrow> (\<not> c \<Longrightarrow> leads A P K b) \<Longrightarrow> leads A P K (if c then a else b)"
  by simp

lemma leads_mono:
  assumes "leads A P K m" and "\<And>e. P e \<Longrightarrow> Q e" and "A \<subseteq> B" and "K \<subseteq> L"
  shows "leads B Q L m"
  unfolding leads_def
proof
  fix tr
  from assms(1) obtain ev where ev: "list_all P ev"
    and c: "(\<exists>a\<in>A. m tr = (Inl a, tr @ ev)) \<or> (\<exists>k\<in>K. m tr = k (tr @ ev))"
    unfolding leads_def by blast
  have "list_all Q ev" using ev assms(2) by (simp add: list_all_iff)
  moreover have "(\<exists>a\<in>B. m tr = (Inl a, tr @ ev)) \<or> (\<exists>k\<in>L. m tr = k (tr @ ev))"
    using c assms(3,4) by blast
  ultimately show "\<exists>ev. list_all Q ev \<and>
        ((\<exists>a\<in>B. m tr = (Inl a, tr @ ev)) \<or> (\<exists>k\<in>L. m tr = k (tr @ ev)))" by blast
qed

lemma leads_trans:
  assumes m: "leads A P K m" and k: "\<And>k. k \<in> K \<Longrightarrow> leads A P L k"
  shows "leads A P L m"
  unfolding leads_def
proof
  fix tr
  from m obtain ev where ev: "list_all P ev"
    and c: "(\<exists>a\<in>A. m tr = (Inl a, tr @ ev)) \<or> (\<exists>k\<in>K. m tr = k (tr @ ev))"
    unfolding leads_def by blast
  from c show "\<exists>ev. list_all P ev \<and>
        ((\<exists>a\<in>A. m tr = (Inl a, tr @ ev)) \<or> (\<exists>k\<in>L. m tr = k (tr @ ev)))"
  proof
    assume "\<exists>a\<in>A. m tr = (Inl a, tr @ ev)"
    then show ?thesis using ev by blast
  next
    assume "\<exists>k\<in>K. m tr = k (tr @ ev)"
    then obtain k0 where k0: "k0 \<in> K" "m tr = k0 (tr @ ev)" by blast
    from k[OF k0(1)] obtain ev' where ev': "list_all P ev'"
      and c': "(\<exists>a\<in>A. k0 (tr @ ev) = (Inl a, (tr @ ev) @ ev')) \<or> (\<exists>k\<in>L. k0 (tr @ ev) = k ((tr @ ev) @ ev'))"
      unfolding leads_def by blast
    with k0 ev show ?thesis
      by (intro exI[of _ "ev @ ev'"]) auto
  qed
qed

lemmas leads_step = leads_seq leads_bnd leads_emit leads_call leads_if_then leads_ret leads_throw

lemmas leads_struct = leads_seq leads_bnd leads_if_then leads_case_option leads_if

lemma InitGCrypt_leads:
  assumes "\<not> gcry_check_version E \<Longrightarrow> Thrown (StdException ''libgcrypt version mismatch'') \<in> A"
  shows "leads A setup_ev (range ret) (InitGCrypt E)"
  using assms unfolding InitGCrypt_def
  by (auto intro!: leads_step simp: setup_ev_def)

lemma InitLog_leads:
  assumes "\<And>h e x. raises E h e = Some x \<Longrightarrow> Thrown x \<in> A"
  shows "leads A setup_ev (range ret) (InitLog E vm)"
  unfolding InitLog_def
  by (auto intro!: leads_step assms simp: setup_ev_def split: option.split)

lemma Main_setup_leads:
  assumes "\<And>h e x. raises E h e = Some x \<Longrightarrow> Thrown x \<in> A"
  shows "leads A setup_ev {Main_auth E vm (vm_progress_bar vm) (loaded_config E)} (Main_setup E vm)"
  unfolding Main_setup_def
  by (auto intro!: leads_step InitLog_leads assms
        leads_refl[of "Main_auth E vm (vm_progress_bar vm) (loaded_config E)"]
      simp: setup_ev_def split: option.split)

lemma Main_leads_early:
  assumes "\<not> gcry_check_version E \<Longrightarrow> Thrown (StdException ''libgcrypt version mismatch'') \<in> A"
    and "parsed E = Some vm" and "vm_help vm \<or> vm_version vm"
  shows "leads A setup_ev {ret 0} (Main E)"
  unfolding Main_def using assms(2,3)
  by (auto intro!: leads_step InitGCrypt_leads assms(1) simp: setup_ev_def)

lemma Main_leads_run:
  assumes "\<And>h e x. raises E h e = Some x \<Longrightarrow> Thrown x \<in> A"
    and "\<not> gcry_check_version E \<Longrightarrow> Thrown (StdException ''libgcrypt version mismatch'') \<in> A"
    and "parsed E = Some vm" and "\<not> vm_help vm" and "\<not> vm_version vm"
  shows "leads A setup_ev {Main_auth E vm (vm_progress_bar vm) (loaded_config E)} (Main E)"
proof -
  have "leads A setup_ev {Main_auth E vm (vm_progress_bar vm) (loaded_config E)}
          (seq (InitGCrypt E) (Main_setup E vm))"
    by (rule leads_seq [OF InitGCrypt_leads [OF assms(2)] Main_setup_leads [OF assms(1)]])
  then show ?thesis using assms(3-5) by (simp add: Main_def)
qed

section \<open>The authorization flow\<close>

text \<open>
  What \<open>Main_auth\<close> does in its three cases: no \<open>--auth\<close>, \<open>--auth\<close> with
  \<open>--print-url\<close>, and the exchange of a code through \<open>AuthCode\<close>.
\<close>

lemma bnd_ret: "bnd (ret x) f = f x"
  by (rule ext) (simp add: bnd_def ret_def)

lemma bnd_throw: "bnd (throw x) f = throw x"
  by (rule ext) (simp add: bnd_def throw_def)

lemma Str_of_Get:
  "Str_of (Get cfg k) =
     (case cfg k of Some (Str s) \<Rightarrow> ret s | _ \<Rightarrow> throw (GrException ''bad type''))"
  by (simp add: Str_of_def Get_def split: option.split val.split)

lemma Str_of_Get_has: "cfg k = Some (Str s) \<Longrightarrow> Str_of (Get cfg k) = ret s"
  by (simp add: Str_of_Get)

lemma Str_of_Get_not: "\<not> has_str cfg k \<Longrightarrow> Str_of (Get cfg k) = throw (GrException ''bad type'')"
  by (simp add: Str_of_Get has_str_def split: option.splits val.splits)

lemma has_strE: "has_str cfg k \<Longrightarrow> \<exists>s. cfg k = Some (Str s)"
  by (simp add: has_str_def split: option.splits val.splits)

lemma Main_auth_none: "\<not> vm_auth vm \<Longrightarrow> Main_auth E vm pb cfg = Main_credentials E vm pb cfg"
  by (simp add: Main_auth_def)

lemma Main_auth_no_uri:
  assumes "vm_auth vm" and "\<not> has_str cfg ''redirect-uri''"
  shows "Main_auth E vm pb cfg = throw (GrException ''bad type'')"
  using assms by (simp add: Main_auth_def Let_def Str_of_Get_not bnd_throw)

lemma Main_auth_print:
  assumes "vm_auth vm" and "vm_print_url vm" and "cfg ''redirect-uri'' = Some (Str u)"
  shows "Main_auth E vm pb cfg =
           seq (call E (OAuth2_ctor_auth (auth_id E vm) (auth_secret E vm) u)) (print_url_only E vm u)"
  using assms
  by (simp add: Main_auth_def Let_def Str_of_Get_has bnd_ret auth_id_def auth_secret_def
       print_url_only_def)

lemma Main_auth_print_leads:
  assumes r: "\<And>h e x. raises E h e = Some x \<Longrightarrow> Thrown x \<in> A"
    and c: "\<not> has_str cfg ''redirect-uri'' \<Longrightarrow> Thrown (GrException ''bad type'') \<in> A"
    and "vm_auth vm" and "vm_print_url vm"
  shows "leads A auth_ev {print_url_only E vm u | u. cfg ''redirect-uri'' = Some (Str u)}
           (Main_auth E vm pb cfg)"
proof (cases "has_str cfg ''redirect-uri''")
  case True
  then obtain u where u: "cfg ''redirect-uri'' = Some (Str u)" using has_strE by blast
  have "leads A auth_ev {print_url_only E vm u | u. cfg ''redirect-uri'' = Some (Str u)}
          (print_url_only E vm u)"
    by (rule leads_refl) (use u in blast)
  moreover have "leads A auth_ev (range ret)
          (call E (OAuth2_ctor_auth (auth_id E vm) (auth_secret E vm) u))"
    by (rule leads_call [OF _ r]) (simp add: auth_ev_def)
  ultimately show ?thesis
    using assms(3,4) u by (simp add: Main_auth_print leads_seq)
next
  case False
  show ?thesis
    using assms(3) False c by (simp add: Main_auth_no_uri leads_throw)
qed

lemma handler_leads:
  assumes "Undefined \<in> A"
  shows "leads A auth_flow_ev (range ret) (handler E req)"
  unfolding handler_def read_second_def Let_def
  by (intro leads_struct leads_emit leads_ret leads_undefined assms)
     (simp_all add: auth_flow_ev_def auth_ev_def code_exchange_def)

lemma await_leads:
  assumes "Undefined \<in> A" and "Blocked \<in> A"
  shows "leads A auth_flow_ev (range ret) (await E reqs)"
  by (induction reqs) (simp_all add: leads_block handler_leads assms)

lemma AuthCode_leads:
  assumes "Undefined \<in> A" and "Blocked \<in> A"
    and "\<And>x. open_fails E = Some x \<Longrightarrow> Thrown x \<in> A"
    and "\<And>x. close_fails E = Some x \<Longrightarrow> Thrown x \<in> A"
  shows "leads A auth_flow_ev (range ret) (AuthCode E uri)"
  unfolding AuthCode_def
  by (intro leads_struct leads_emit leads_ret leads_throw await_leads assms)
     (simp_all add: auth_flow_ev_def auth_ev_def code_exchange_def)

section \<open>Credentials, agent and sync phase\<close>

text \<open>
  After the exchange the configuration holds the four credentials. Reading them either
  gives all four or, at the first that is missing, ends in the handler of line 289.
\<close>

lemma has_credentials_upd:
  "has_credentials (cfg(''id'' \<mapsto> Str i, ''secret'' \<mapsto> Str s, ''refresh_token'' \<mapsto> Str t,
     ''redirect-uri'' \<mapsto> Str r))"
  by (simp add: has_credentials_def has_str_def)

lemma Main_auth_exchange_leads:
  assumes r: "\<And>h e x. raises E h e = Some x \<Longrightarrow> Thrown x \<in> A"
    and c: "\<not> has_str cfg ''redirect-uri'' \<Longrightarrow> Thrown (GrException ''bad type'') \<in> A"
    and a: "Undefined \<in> A" "Blocked \<in> A"
      "\<And>x. open_fails E = Some x \<Longrightarrow> Thrown x \<in> A"
      "\<And>x. close_fails E = Some x \<Longrightarrow> Thrown x \<in> A"
    and v: "vm_auth vm" "\<not> vm_print_url vm"
  shows "leads A auth_flow_ev {Main_credentials E vm pb cfg' | cfg'. has_credentials cfg'}
           (Main_auth E vm pb cfg)"
proof (cases "has_str cfg ''redirect-uri''")
  case True
  then obtain u where u: "cfg ''redirect-uri'' = Some (Str u)" using has_strE by blast
  have k: "\<And>i s t r. leads A auth_flow_ev
           {Main_credentials E vm pb cfg' | cfg'. has_credentials cfg'}
           (Main_credentials E vm pb (cfg(''id'' \<mapsto> Str i, ''secret'' \<mapsto> Str s,
               ''refresh_token'' \<mapsto> Str t, ''redirect-uri'' \<mapsto> Str r)))"
    by (rule leads_refl) (use has_credentials_upd in blast)
  have "leads A auth_flow_ev {Main_credentials E vm pb cfg' | cfg'. has_credentials cfg'}
     (seq (call E (OAuth2_ctor_auth (auth_id E vm) (auth_secret E vm) u))
       (seq (emit (Stdout (''-----------------------\<newline>''
                     @ ''Please go to this URL to authorize the app:\<newline>\<newline>''
                     @ MakeAuthURL E (auth_id E vm) (auth_secret E vm) u)))
             (bnd (AuthCode E u) (\<lambda>code.
              seq (call E (Token_Auth code))
             (seq (emit (Config_Set ''id'' (Str (auth_id E vm))))
             (seq (emit (Config_Set ''secret'' (Str (auth_secret E vm))))
             (seq (emit (Config_Set ''refresh_token'' (Str (RefreshToken E code))))
             (seq (emit (Config_Set ''redirect-uri'' (Str u)))
             (seq (call E Config_Save)
                  (Main_credentials E vm pb
                     (cfg(''id'' \<mapsto> Str (auth_id E vm), ''secret'' \<mapsto> Str (auth_secret E vm),
                          ''refresh_token'' \<mapsto> Str (RefreshToken E code),
                          ''redirect-uri'' \<mapsto> Str u))))))))))))"
    by (intro leads_struct leads_emit leads_call [OF _ r] AuthCode_leads a k)
       (simp_all add: auth_flow_ev_def auth_ev_def code_exchange_def)
  then show ?thesis
    using v u by (simp add: Main_auth_def Let_def Str_of_Get_has bnd_ret auth_id_def auth_secret_def)
next
  case False
  show ?thesis
    using v(1) False c by (simp add: Main_auth_no_uri leads_throw)
qed

lemma try_catch_ret: "try_catch_Exception (ret x) h = ret x"
  by (rule ext) (simp add: try_catch_Exception_def ret_def)

lemma try_catch_throw: "try_catch_Exception (throw (GrException d)) h = h d"
  by (rule ext) (simp add: try_catch_Exception_def throw_def)

lemma Main_credentials_ok:
  assumes "has_credentials cfg"
  shows "\<exists>t i s r. Main_credentials E vm pb cfg = Main_agent E vm pb t i s r"
proof -
  from assms obtain t i s r where
    "cfg ''refresh_token'' = Some (Str t)" "cfg ''id'' = Some (Str i)"
    "cfg ''secret'' = Some (Str s)" "cfg ''redirect-uri'' = Some (Str r)"
    unfolding has_credentials_def using has_strE by metis
  then have "Main_credentials E vm pb cfg = Main_agent E vm pb t i s r"
    by (simp add: Main_credentials_def Str_of_Get_has bnd_ret try_catch_ret)
  then show ?thesis by blast
qed

lemma read_credentials_missing:
  assumes "\<not> has_credentials cfg"
  shows "bnd (Str_of (Get cfg ''refresh_token'')) (\<lambda>refresh_token.
         bnd (Str_of (Get cfg ''id'')) (\<lambda>id'.
         bnd (Str_of (Get cfg ''secret'')) (\<lambda>secret.
         bnd (Str_of (Get cfg ''redirect-uri'')) (\<lambda>redirect_uri.
         ret (Inr (refresh_token, id', secret, redirect_uri) :: int + string \<times> string \<times> string \<times> string)))))
       = throw (GrException ''bad type'')"
proof (cases "has_str cfg ''refresh_token''")
  case False
  then show ?thesis by (simp add: Str_of_Get_not bnd_throw)
next
  case t: True
  then obtain t where t': "cfg ''refresh_token'' = Some (Str t)" using has_strE by blast
  show ?thesis
  proof (cases "has_str cfg ''id''")
    case False
    with t' show ?thesis by (simp add: Str_of_Get_has Str_of_Get_not bnd_throw bnd_ret)
  next
    case i: True
    then obtain i where i': "cfg ''id'' = Some (Str i)" using has_strE by blast
    show ?thesis
    proof (cases "has_str cfg ''secret''")
      case False
      with t' i' show ?thesis
        by (simp add: Str_of_Get_has Str_of_Get_not bnd_throw bnd_ret)
    next
      case s: True
      then obtain s where s': "cfg ''secret'' = Some (Str s)" using has_strE by blast
      from assms t i s have "\<not> has_str cfg ''redirect-uri''"
        by (simp add: has_credentials_def)
      with t' i' s' show ?thesis
        by (simp add: Str_of_Get_has Str_of_Get_not bnd_throw bnd_ret)
    qed
  qed
qed

lemma Main_credentials_missing:
  assumes "\<not> has_credentials cfg"
  shows "Main_credentials E vm pb cfg = seq (emit (Log first_time_msg critical)) (ret (- 1))"
  unfolding Main_credentials_def read_credentials_missing [OF assms] try_catch_throw
  by (rule ext) (simp add: prog_defs)

lemma Main_credentials_leads:
  "leads A cred_ev ({Main_agent E vm pb t i s r | t i s r. True} \<union> range ret)
     (Main_credentials E vm pb cfg)"
proof (cases "has_credentials cfg")
  case True
  from Main_credentials_ok [OF True] obtain t i s r where
    "Main_credentials E vm pb cfg = Main_agent E vm pb t i s r" by blast
  then show ?thesis by (auto intro!: leads_refl)
next
  case False
  show ?thesis
    unfolding Main_credentials_missing [OF False]
    by (intro leads_seq leads_emit leads_ret) (simp_all add: cred_ev_def)
qed

lemma Main_agent_leads:
  assumes r: "\<And>h e x. raises E h e = Some x \<Longrightarrow> Thrown x \<in> A"
  shows "leads A (agent_ev vm) {Main_sync E vm pb} (Main_agent E vm pb t i s r')"
  unfolding Main_agent_def
  by (intro leads_struct leads_call [OF _ r] leads_ret leads_refl [of "Main_sync E vm pb"])
     (simp_all add: agent_ev_def)

lemma Main_sync_leads:
  assumes r: "\<And>h e x. raises E h e = Some x \<Longrightarrow> Thrown x \<in> A"
  shows "leads A sync_ev {ret 0} (Main_sync E vm pb)"
  unfolding Main_sync_def
  by (intro leads_struct leads_call [OF _ r] leads_emit leads_ret)
     (simp_all add: sync_ev_def sync_phase_def sync_op_def)

section \<open>From the start of Main to the agent and the sync phase\<close>

text \<open>
  Everything \<open>Main\<close> does before the refreshing token is built is an event of
  \<open>before_agent\<close>; a run either stops there or goes on as \<open>Main_agent\<close>, and then
  as \<open>Main_sync\<close>.
\<close>

lemma main_fst:
  "fst (main E) = (case fst (Main E []) of Inl (Thrown x) \<Rightarrow> Inr (- 1) | r \<Rightarrow> r)"
  by (cases "Main E []")
     (simp add: main_def split: sum.split abort.split exn.split)

lemma main_snd:
  "snd (main E) =
     snd (Main E []) @ (case fst (Main E []) of Inl (Thrown x) \<Rightarrow> [exception_log x] | _ \<Rightarrow> [])"
  by (cases "Main E []")
     (simp add: main_def exception_log_def split: sum.split abort.split exn.split)

lemma before_agentI:
  "setup_ev e \<Longrightarrow> before_agent e" "auth_ev e \<Longrightarrow> before_agent e"
  "auth_flow_ev e \<Longrightarrow> before_agent e" "cred_ev e \<Longrightarrow> before_agent e"
  by (simp_all add: before_agent_def auth_flow_ev_def)

lemma before_agent_not_after: "before_agent e \<Longrightarrow> \<not> after_credentials e"
  by (cases e)
     (auto simp: before_agent_def setup_ev_def auth_flow_ev_def auth_ev_def code_exchange_def
        cred_ev_def after_credentials_def sync_phase_def sync_op_def)

lemma agent_ev_not_sync: "agent_ev vm e \<Longrightarrow> \<not> sync_phase e"
  by (cases e) (auto simp: agent_ev_def sync_phase_def sync_op_def)

lemma before_agent_not_sync: "before_agent e \<Longrightarrow> \<not> sync_phase e"
  using before_agent_not_after [of e] by (cases e) (auto simp: after_credentials_def)

lemma print_url_only_leads: "leads A auth_ev {ret 0} (print_url_only E vm u)"
  unfolding print_url_only_def
  by (intro leads_seq leads_emit leads_ret) (simp_all add: auth_ev_def)

lemma Main_auth_leads:
  "leads UNIV before_agent ({Main_agent E vm pb t i s r | t i s r. True} \<union> range ret)
     (Main_auth E vm pb cfg)"
proof (cases "vm_auth vm")
  case False
  show ?thesis
    unfolding Main_auth_none [OF False]
    by (rule leads_mono [OF Main_credentials_leads]) (auto intro: before_agentI)
next
  case True
  show ?thesis
  proof (cases "vm_print_url vm")
    case p: True
    have "leads UNIV auth_ev {print_url_only E vm u | u. cfg ''redirect-uri'' = Some (Str u)}
            (Main_auth E vm pb cfg)"
      by (rule Main_auth_print_leads [OF _ _ True p]) simp_all
    then have "leads UNIV auth_ev {ret 0} (Main_auth E vm pb cfg)"
      by (rule leads_trans) (auto intro: print_url_only_leads)
    then show ?thesis
      by (rule leads_mono) (auto intro: before_agentI)
  next
    case p: False
    have "leads UNIV auth_flow_ev {Main_credentials E vm pb cfg' | cfg'. has_credentials cfg'}
            (Main_auth E vm pb cfg)"
      by (rule Main_auth_exchange_leads [OF _ _ _ _ _ _ True p]) simp_all
    then have "leads UNIV before_agent {Main_credentials E vm pb cfg' | cfg'. has_credentials cfg'}
            (Main_auth E vm pb cfg)"
      by (rule leads_mono) (auto intro: before_agentI)
    then show ?thesis
    proof (rule leads_trans)
      fix k assume "k \<in> {Main_credentials E vm pb cfg' | cfg'. has_credentials cfg'}"
      then obtain cfg' where k: "k = Main_credentials E vm pb cfg'" by blast
      show "leads UNIV before_agent ({Main_agent E vm pb t i s r | t i s r. True} \<union> range ret) k"
        unfolding k
        by (rule leads_mono [OF Main_credentials_leads]) (auto intro: before_agentI)
    qed
  qed
qed

lemma Main_reach_agent:
  assumes "parsed E = Some vm"
  shows "leads UNIV before_agent
           ({Main_agent E vm (vm_progress_bar vm) t i s r | t i s r. True} \<union> range ret) (Main E)"
proof (cases "vm_help vm \<or> vm_version vm")
  case True
  have "leads UNIV setup_ev {ret 0} (Main E)"
    by (rule Main_leads_early [OF _ assms True]) simp
  then show ?thesis
    by (rule leads_mono) (auto intro: before_agentI)
next
  case False
  have "leads UNIV setup_ev {Main_auth E vm (vm_progress_bar vm) (loaded_config E)} (Main E)"
    by (rule Main_leads_run [OF _ _ assms]) (use False in simp_all)
  then have "leads UNIV before_agent {Main_auth E vm (vm_progress_bar vm) (loaded_config E)} (Main E)"
    by (rule leads_mono) (auto intro: before_agentI)
  then show ?thesis
  proof (rule leads_trans)
    fix k assume "k \<in> {Main_auth E vm (vm_progress_bar vm) (loaded_config E)}"
    then have k: "k = Main_auth E vm (vm_progress_bar vm) (loaded_config E)" by simp
    show "leads UNIV before_agent
           ({Main_agent E vm (vm_progress_bar vm) t i s r | t i s r. True} \<union> range ret) k"
      unfolding k by (rule Main_auth_leads)
  qed
qed

lemma Main_reach_sync:
  assumes "parsed E = Some vm"
  shows "leads UNIV (\<lambda>e. \<not> sync_phase e)
           ({Main_sync E vm (vm_progress_bar vm)} \<union> range ret) (Main E)"
proof -
  have "leads UNIV (\<lambda>e. \<not> sync_phase e)
           ({Main_agent E vm (vm_progress_bar vm) t i s r | t i s r. True} \<union> range ret) (Main E)"
    by (rule leads_mono [OF Main_reach_agent [OF assms]]) (auto dest: before_agent_not_sync)
  then show ?thesis
  proof (rule leads_trans)
    fix k :: "int prog"
    assume "k \<in> {Main_agent E vm (vm_progress_bar vm) t i s r | t i s r. True} \<union> range ret"
    then consider t i s r where "k = Main_agent E vm (vm_progress_bar vm) t i s r"
      | x where "k = ret x" by blast
    then show "leads UNIV (\<lambda>e. \<not> sync_phase e)
           ({Main_sync E vm (vm_progress_bar vm)} \<union> range ret) k"
    proof cases
      case 1
      have "leads UNIV (agent_ev vm) {Main_sync E vm (vm_progress_bar vm)} k"
        unfolding 1 by (rule Main_agent_leads) simp
      then show ?thesis
        by (rule leads_mono) (auto dest: agent_ev_not_sync)
    next
      case 2
      show ?thesis unfolding 2 by (rule leads_ret) simp
    qed
  qed
qed

lemma Main_parse_error:
  assumes "parsed E = None"
  shows "leads UNIV setup_ev {ret (- 1)} (Main E)"
  unfolding Main_def using assms
  by (simp, intro leads_seq leads_emit leads_ret InitGCrypt_leads) (simp_all add: setup_ev_def)



section \<open>The calls of the sync phase\<close>




section \<open>Exit status and missing credentials\<close>

text \<open>
  \<open>Main\<close> never reads \<open>failed_paths\<close>. Once Update is in the trace the run is in
  \<open>Main_sync\<close>, which returns 0 or throws.
\<close>

lemma call_failed_paths: "call (E\<lparr>failed_paths := ps\<rparr>) = call E"
  by (simp add: call_def fun_eq_iff)

lemma Main_failed_paths: "Main (E\<lparr>failed_paths := ps\<rparr>) = Main E"
proof -
  have s: "\<And>vm pb. Main_sync (E\<lparr>failed_paths := ps\<rparr>) vm pb = Main_sync E vm pb"
    by (simp add: Main_sync_def call_failed_paths)
  have a: "\<And>vm pb t i s r. Main_agent (E\<lparr>failed_paths := ps\<rparr>) vm pb t i s r = Main_agent E vm pb t i s r"
    by (simp add: Main_agent_def call_failed_paths s cong: option.case_cong)
  have c: "\<And>vm pb cfg. Main_credentials (E\<lparr>failed_paths := ps\<rparr>) vm pb cfg = Main_credentials E vm pb cfg"
    by (simp add: Main_credentials_def a cong: sum.case_cong)
  have w: "\<And>reqs. await (E\<lparr>failed_paths := ps\<rparr>) reqs = await E reqs"
  proof -
    have "\<And>fc. read_second (E\<lparr>failed_paths := ps\<rparr>) fc = read_second E fc"
      by (simp add: read_second_def cong: option.case_cong)
    then have "\<And>req. handler (E\<lparr>failed_paths := ps\<rparr>) req = handler E req"
      by (simp add: handler_def)
    then show "await (E\<lparr>failed_paths := ps\<rparr>) reqs = await E reqs" for reqs
      by (induction reqs) simp_all
  qed
  have u: "\<And>uri. AuthCode (E\<lparr>failed_paths := ps\<rparr>) uri = AuthCode E uri"
    by (simp add: AuthCode_def w)
  have h: "\<And>vm pb cfg. Main_auth (E\<lparr>failed_paths := ps\<rparr>) vm pb cfg = Main_auth E vm pb cfg"
    by (simp add: Main_auth_def call_failed_paths c u cong: option.case_cong if_cong)
  have l: "\<And>vm. InitLog (E\<lparr>failed_paths := ps\<rparr>) vm = InitLog E vm"
    by (simp add: InitLog_def call_failed_paths cong: option.case_cong)
  have t: "\<And>vm. Main_setup (E\<lparr>failed_paths := ps\<rparr>) vm = Main_setup E vm"
    by (simp add: Main_setup_def call_failed_paths h l cong: option.case_cong)
  have g: "InitGCrypt (E\<lparr>failed_paths := ps\<rparr>) = InitGCrypt E"
    by (simp add: InitGCrypt_def)
  show ?thesis
    by (simp add: Main_def t g cong: option.case_cong if_cong)
qed

lemma Main_sync_result:
  "fst (Main_sync E vm pb tr) = Inr 0 \<or> (\<exists>x. fst (Main_sync E vm pb tr) = Inl (Thrown x))"
proof -
  have "leads (range Thrown) sync_ev {ret 0} (Main_sync E vm pb)"
    by (rule Main_sync_leads) simp
  then obtain ev where
    "(\<exists>a\<in>range Thrown. Main_sync E vm pb tr = (Inl a, tr @ ev)) \<or>
     (\<exists>k\<in>{ret 0}. Main_sync E vm pb tr = k (tr @ ev))"
    unfolding leads_def by blast
  then show ?thesis by (auto simp: ret_def)
qed

lemma no_Update: "list_all (\<lambda>e. \<not> sync_phase e) ev \<Longrightarrow> Update \<notin> set ev"
  by (induction ev) (auto simp: sync_phase_def sync_op_def)

lemma Update_reached:
  assumes "Update \<in> set (snd (Main E []))"
  shows "\<exists>vm pb tr. Main E [] = Main_sync E vm pb tr"
proof (cases "parsed E")
  case None
  from Main_parse_error [OF None] obtain ev where ev: "list_all setup_ev ev"
    and c: "(\<exists>a\<in>UNIV. Main E [] = (Inl a, ev)) \<or> (\<exists>k\<in>{ret (- 1)}. Main E [] = k ev)"
    by (rule leads_D)
  have "list_all (\<lambda>e. \<not> sync_phase e) ev"
    using ev before_agent_not_sync before_agentI(1) by (auto simp: list_all_iff)
  then have "Update \<notin> set ev" by (rule no_Update)
  with c assms show ?thesis by (auto simp: ret_def)
next
  case (Some vm)
  from Main_reach_sync [OF Some] obtain ev where ev: "list_all (\<lambda>e. \<not> sync_phase e) ev"
    and c: "(\<exists>a\<in>UNIV. Main E [] = (Inl a, ev)) \<or>
            (\<exists>k\<in>{Main_sync E vm (vm_progress_bar vm)} \<union> range ret. Main E [] = k ev)"
    by (rule leads_D)
  have "Update \<notin> set ev" using ev by (rule no_Update)
  with c assms show ?thesis by (auto simp: ret_def)
qed

lemma exception_log_not_Update: "exception_log x \<noteq> Update" "Update \<noteq> exception_log x"
  by (cases x; simp add: exception_log_def)+

lemma main_snd_cases:
  "snd (main E) = snd (Main E []) \<or> (\<exists>x. snd (main E) = snd (Main E []) @ [exception_log x])"
proof (cases "fst (Main E [])")
  case (Inl a)
  show ?thesis
  proof (cases a)
    case (Thrown x)
    with Inl have "snd (main E) = snd (Main E []) @ [exception_log x]"
      by (simp add: main_snd)
    then show ?thesis by blast
  qed (use Inl in \<open>simp_all add: main_snd\<close>)
next
  case (Inr b)
  then show ?thesis by (simp add: main_snd)
qed

lemma exception_log_critical: "\<exists>msg. exception_log x = Log msg critical"
  by (cases x) (simp_all add: exception_log_def)

lemma exception_log_not_after: "\<not> after_credentials (exception_log x)"
  by (cases x) (simp_all add: exception_log_def after_credentials_def sync_phase_def sync_op_def)

lemma setup_ev_not_after: "list_all setup_ev ev \<Longrightarrow> list_all (\<lambda>e. \<not> after_credentials e) ev"
  using before_agent_not_after before_agentI(1) by (auto simp: list_all_iff)

lemma missing_credential:
  assumes "k \<in> {''refresh_token'', ''id'', ''secret'', ''redirect-uri''}" and "cfg k = None"
  shows "\<not> has_credentials cfg"
  using assms by (auto simp: has_credentials_def has_str_def)

lemma Main_without_credentials:
  assumes r: "\<And>h e x. raises E h e = Some x \<Longrightarrow> Thrown x \<in> A"
    and g: "\<not> gcry_check_version E \<Longrightarrow> Thrown (StdException ''libgcrypt version mismatch'') \<in> A"
    and v: "parsed E = Some vm" "\<not> vm_help vm" "\<not> vm_version vm" "\<not> vm_auth vm"
    and n: "\<not> has_credentials (loaded_config E)"
  obtains ev where "list_all setup_ev ev"
    and "(\<exists>a\<in>A. Main E [] = (Inl a, ev)) \<or>
         Main E [] = (Inr (- 1), ev @ [Log first_time_msg critical])"
proof -
  have "leads A setup_ev {Main_auth E vm (vm_progress_bar vm) (loaded_config E)} (Main E)"
    by (rule Main_leads_run [OF r g v(1,2,3)])
  then obtain ev where ev: "list_all setup_ev ev"
    and c: "(\<exists>a\<in>A. Main E [] = (Inl a, ev)) \<or>
            (\<exists>k\<in>{Main_auth E vm (vm_progress_bar vm) (loaded_config E)}. Main E [] = k ev)"
    by (rule leads_D)
  have "Main_auth E vm (vm_progress_bar vm) (loaded_config E) ev =
          (Inr (- 1), ev @ [Log first_time_msg critical])"
    by (simp add: Main_auth_none [OF v(4)] Main_credentials_missing [OF n] prog_defs)
  with c have "(\<exists>a\<in>A. Main E [] = (Inl a, ev)) \<or>
         Main E [] = (Inr (- 1), ev @ [Log first_time_msg critical])"
    by auto
  with ev show thesis by (rule that)
qed

section \<open>Rate limits and the printed URL\<close>









lemma not_code_exchange:
  "setup_ev e \<or> auth_ev e \<Longrightarrow> \<not> code_exchange e"
  by (cases e) (auto simp: setup_ev_def auth_ev_def code_exchange_def)

lemma exception_log_not_exchange: "\<not> code_exchange (exception_log x)"
  by (cases x) (simp_all add: exception_log_def code_exchange_def)

lemma Main_print_url:
  assumes r: "\<And>h e x. raises E h e = Some x \<Longrightarrow> Thrown x \<in> A"
    and g: "\<not> gcry_check_version E \<Longrightarrow> Thrown (StdException ''libgcrypt version mismatch'') \<in> A"
    and c: "\<not> has_str (loaded_config E) ''redirect-uri'' \<Longrightarrow> Thrown (GrException ''bad type'') \<in> A"
    and v: "parsed E = Some vm" "\<not> vm_help vm" "\<not> vm_version vm" "vm_auth vm" "vm_print_url vm"
  obtains ev where "list_all (\<lambda>e. setup_ev e \<or> auth_ev e) ev"
    and "(\<exists>a\<in>A. Main E [] = (Inl a, ev)) \<or>
         (\<exists>u. loaded_config E ''redirect-uri'' = Some (Str u) \<and>
              Main E [] =
                (Inr 0, ev @ [Stdout (MakeAuthURL E (auth_id E vm) (auth_secret E vm) u)]))"
proof -
  let ?P = "\<lambda>e. setup_ev e \<or> auth_ev e"
  let ?K = "{print_url_only E vm u | u. loaded_config E ''redirect-uri'' = Some (Str u)}"
  have "leads A ?P {Main_auth E vm (vm_progress_bar vm) (loaded_config E)} (Main E)"
    by (rule leads_mono [OF Main_leads_run [OF r g v(1,2,3)]]) auto
  then have "leads A ?P ?K (Main E)"
  proof (rule leads_trans)
    fix k assume "k \<in> {Main_auth E vm (vm_progress_bar vm) (loaded_config E)}"
    then have k: "k = Main_auth E vm (vm_progress_bar vm) (loaded_config E)" by simp
    show "leads A ?P ?K k"
      unfolding k by (rule leads_mono [OF Main_auth_print_leads [OF r c v(4,5)]]) auto
  qed
  then obtain ev where ev: "list_all ?P ev"
    and d: "(\<exists>a\<in>A. Main E [] = (Inl a, ev)) \<or> (\<exists>k\<in>?K. Main E [] = k ev)"
    by (rule leads_D)
  from d have "(\<exists>a\<in>A. Main E [] = (Inl a, ev)) \<or>
         (\<exists>u. loaded_config E ''redirect-uri'' = Some (Str u) \<and>
              Main E [] =
                (Inr 0, ev @ [Stdout (MakeAuthURL E (auth_id E vm) (auth_secret E vm) u)]))"
    by (auto simp: print_url_only_def prog_defs)
  with ev show thesis by (rule that)
qed

section \<open>The concrete runs, evaluated\<close>

text \<open>
  The traces of three of the concrete runs, computed from the definitions.
\<close>

lemmas Main_defs = Main_def InitGCrypt_def Main_setup_def InitLog_def Main_auth_def
  Main_credentials_def Main_agent_def Main_sync_def Str_of_def Get_def try_catch_Exception_def
  prog_defs

lemma Main_env0:
  "Main env0 [] =
    (Inr 0,
     [Gcry_control GCRYCTL_DISABLE_SECMEM, Gcry_control GCRYCTL_INITIALIZATION_FINISHED,
      CompositeLog_ctor, LogBase_Inst, Config_ctor, Log ''config file name .grive'' verbose,
      CurlAgent_ctor, OAuth2_ctor_refresh ''rt'' ''cid'' ''cs'' ''http://localhost:9898'',
      AuthAgent_ctor, Syncer2_ctor, Drive_ctor, DetectChanges, Update, SaveState, Config_Save,
      Log ''Finished!'' info])"
  by (simp add: Main_defs env0_def vm0_def)



section \<open>The claims\<close>



text \<open>
  C2 (as stated, refuted). The claim says that a run in which paths failed to reconcile,
  without a fatal error, ends with a non-zero exit status. In this run Update is invoked,
  one path fails, nothing throws, and the exit status is 0.
\<close>

theorem C2_exit_zero_despite_failed_paths:
  "failed_paths env_failed = [''a.txt''] \<and> Update \<in> set (snd (main env_failed)) \<and>
   fst (main env_failed) = Inr 0"
  by (simp add: main_def Main_defs env_failed_def env0_def vm0_def)

text \<open>
  C2 (amended). The exit status does not depend on the paths that failed to reconcile. A
  run that has invoked Update ends with status 0, unless an exception leaves \<open>Main\<close>,
  in which case it ends with status -1.
\<close>

theorem C2_exit_status_ignores_failed_paths:
  "main (E\<lparr>failed_paths := ps\<rparr>) = main E \<and>
   (Update \<in> set (snd (main E)) \<longrightarrow>
      fst (main E) = Inr 0 \<or>
      ((\<exists>x. fst (Main E []) = Inl (Thrown x)) \<and> fst (main E) = Inr (- 1)))"
proof (intro conjI impI)
  show "main (E\<lparr>failed_paths := ps\<rparr>) = main E"
    by (simp add: main_def Main_failed_paths)
next
  assume "Update \<in> set (snd (main E))"
  then have "Update \<in> set (snd (Main E []))"
    using main_snd_cases [of E] exception_log_not_Update by auto
  then obtain vm pb tr where "Main E [] = Main_sync E vm pb tr"
    using Update_reached by blast
  with Main_sync_result [of E vm pb tr]
  show "fst (main E) = Inr 0 \<or>
      ((\<exists>x. fst (Main E []) = Inl (Thrown x)) \<and> fst (main E) = Inr (- 1))"
    by (auto simp: main_fst)
qed

text \<open>
  C2, witness: the plain sync invokes Update and ends with 0, and so does the run that
  differs from it only in a failed path.
\<close>

theorem C2_exit_status_ignores_failed_paths_witness:
  "Update \<in> set (snd (main env0)) \<and> fst (main env0) = Inr 0 \<and> main env_failed = main env0"
proof -
  have u: "Update \<in> set (snd (main env0))"
    by (simp add: main_def Main_env0)
  have n: "fst (Main env0 []) = Inr 0"
    by (simp add: Main_env0)
  from C2_exit_status_ignores_failed_paths [where E = env0 and ps = "[''a.txt'']"] u n show ?thesis
    by (simp add: env_failed_def)
qed

text \<open>
  C3. When the options parse, none of \<open>--help\<close>, \<open>--version\<close> and \<open>--auth\<close>
  is given, and one of the credentials refresh_token, id, secret and redirect-uri is missing
  from the loaded configuration, the process ends with status -1, a line of critical level
  is logged, and no event that needs the credentials occurs: no refreshing token, no
  authenticated agent, no syncer, no rate limit, nothing of the sync phase. When moreover
  nothing throws before, \<open>Main\<close> itself returns -1 and its last act is to log the message
  that asks for the \<open>-a\<close> option, at critical level.
\<close>

theorem C3_missing_credentials_abort:
  assumes "parsed E = Some vm" "\<not> vm_help vm" "\<not> vm_version vm" "\<not> vm_auth vm"
    and "k \<in> {''refresh_token'', ''id'', ''secret'', ''redirect-uri''}"
    and "loaded_config E k = None"
  shows "fst (main E) = Inr (- 1) \<and>
         (\<exists>msg. Log msg critical \<in> set (snd (main E))) \<and>
         list_all (\<lambda>e. \<not> after_credentials e) (snd (main E)) \<and>
         (gcry_check_version E \<and> (\<forall>h e. raises E h e = None) \<longrightarrow>
            fst (Main E []) = Inr (- 1) \<and>
            last (snd (Main E [])) = Log first_time_msg critical)"
proof -
  have n: "\<not> has_credentials (loaded_config E)"
    using missing_credential [where cfg = "loaded_config E"] assms(5,6) by blast
  obtain ev where ev: "list_all setup_ev ev"
    and c: "(\<exists>a\<in>range Thrown. Main E [] = (Inl a, ev)) \<or>
         Main E [] = (Inr (- 1), ev @ [Log first_time_msg critical])"
    by (rule Main_without_credentials [OF _ _ assms(1-4) n, of "range Thrown"]) simp_all
  note na = setup_ev_not_after [OF ev]
  from c have 1: "fst (main E) = Inr (- 1)"
    by (auto simp: main_fst)
  from c have 2: "\<exists>msg. Log msg critical \<in> set (snd (main E))"
    using exception_log_critical by (auto simp: main_snd) metis
  have la: "\<not> after_credentials (Log first_time_msg critical)"
    by (simp add: after_credentials_def sync_phase_def sync_op_def)
  from c na have 3: "list_all (\<lambda>e. \<not> after_credentials e) (snd (main E))"
    by (auto simp: main_snd exception_log_not_after la)
  have 4: "fst (Main E []) = Inr (- 1) \<and> last (snd (Main E [])) = Log first_time_msg critical"
    if gc: "gcry_check_version E" and nr: "\<forall>h e. raises E h e = None"
  proof -
    obtain ev' where "(\<exists>a\<in>{}. Main E [] = (Inl a, ev')) \<or>
         Main E [] = (Inr (- 1), ev' @ [Log first_time_msg critical])"
      by (rule Main_without_credentials [OF _ _ assms(1-4) n, of "{}"]) (use gc nr in simp_all)
    then show ?thesis by auto
  qed
  from 1 2 3 4 show ?thesis by blast
qed

text \<open>
  C3, witness: a first run with an empty configuration.
\<close>

theorem C3_missing_credentials_abort_witness:
  "loaded_config env_nocred ''refresh_token'' = None \<and>
   fst (main env_nocred) = Inr (- 1) \<and>
   last (snd (Main env_nocred [])) = Log first_time_msg critical \<and>
   list_all (\<lambda>e. \<not> after_credentials e) (snd (main env_nocred))"
proof -
  have h: "parsed env_nocred = Some vm0" "\<not> vm_help vm0" "\<not> vm_version vm0" "\<not> vm_auth vm0"
    "''refresh_token'' \<in> {''refresh_token'', ''id'', ''secret'', ''redirect-uri''}"
    "loaded_config env_nocred ''refresh_token'' = None"
    by (simp_all add: env_nocred_def env0_def vm0_def)
  have g: "gcry_check_version env_nocred \<and> (\<forall>h e. raises env_nocred h e = None)"
    by (simp add: env_nocred_def env0_def)
  from C3_missing_credentials_abort [OF h] g h(6) show ?thesis by blast
qed

text \<open>
  C4 (as stated, refuted). The claim lists a download-only option among the options the
  program accepts, next to dry-run, upload-only, the subdirectory filter, force-download
  and the two bandwidth caps. \<open>desc\<close> declares no such option.
\<close>

theorem C4_download_only_not_declared:
  "\<not> list_all declared
      [''dry-run'', ''upload-only'', ''download-only'', ''dir'', ''force'',
       ''upload-speed'', ''download-speed'']"
  by (simp add: declared_def option_names_def desc_def)

text \<open>
  C4 (amended). The program declares exactly the twenty-one options of \<open>desc\<close>. Among
  them are dry-run, upload-only, the subdirectory filter (dir), force-download (force) and
  the two bandwidth caps (upload-speed, download-speed). None is named download-only, and
  no declared name begins with download-only.
\<close>

theorem C4_declared_options:
  "option_names =
     [''help'', ''version'', ''auth'', ''id'', ''secret'', ''print-url'', ''path'',
      ''redirect-uri'', ''dir'', ''verbose'', ''log-http'', ''new-rev'', ''debug'', ''log'',
      ''force'', ''upload-only'', ''no-remote-new'', ''dry-run'', ''upload-speed'',
      ''download-speed'', ''progress-bar''] \<and>
   list_all declared
     [''dry-run'', ''upload-only'', ''dir'', ''force'', ''upload-speed'', ''download-speed''] \<and>
   \<not> declared ''download-only'' \<and>
   filter (prefix ''download-only'') option_names = []"
  by (simp add: declared_def option_names_def desc_def)



text \<open>
  C6 (the code at the failing input). A GET request whose query has no \<open>code\<close>
  parameter: in every run the handler replies BadRequest and then still reads
  \<open>found_code->second\<close>, through the end iterator, where the claim says no code value is
  accessed. In a run that does not get past the undefined read these are its last acts; in
  a run where the read yields a string, here the empty one, the handler goes on to reply
  OK and hands that string over as the authorization code.
\<close>

theorem C6_handler_reads_absent_code:
  "take 3 (snd (handler E denied_req [])) =
     [Stdout ''request received without auth code: http://localhost:9898/?error=access_denied'',
      Reply BadRequest missing_code_msg,
      Read_second None] \<and>
   handler env0 denied_req [] =
     (Inl Undefined,
      [Stdout ''request received without auth code: http://localhost:9898/?error=access_denied'',
       Reply BadRequest missing_code_msg,
       Read_second None]) \<and>
   handler (env0\<lparr>end_second := Some []\<rparr>) denied_req [] =
     (Inr [],
      [Stdout ''request received without auth code: http://localhost:9898/?error=access_denied'',
       Reply BadRequest missing_code_msg,
       Read_second None,
       Stdout ''received authorization code'',
       Reply OK received_code_msg,
       Promise_set_value []])"
  by (cases "end_second E")
     (simp_all add: handler_def read_second_def denied_req_def env0_def prog_defs)




text \<open>
  C8. Whatever exception leaves \<open>Main\<close> (the project's Exception, a std::exception or
  any other value), \<open>main\<close> appends one log line of critical level to what the run has
  done and returns -1.
\<close>

theorem C8_exception_logged_and_minus_one:
  "fst (Main E []) = Inl (Thrown x) \<Longrightarrow>
     main E = (Inr (- 1), snd (Main E []) @ [exception_log x]) \<and>
     (\<exists>msg. exception_log x = Log msg critical)"
  by (cases "Main E []"; cases x) (simp_all add: main_def exception_log_def)

text \<open>
  C8, witness: the libgcrypt version check fails, and the runtime error it throws is logged.
\<close>

theorem C8_exception_logged_and_minus_one_witness:
  "fst (Main (env0\<lparr>gcry_check_version := False\<rparr>) []) =
      Inl (Thrown (StdException ''libgcrypt version mismatch'')) \<and>
   main (env0\<lparr>gcry_check_version := False\<rparr>) =
      (Inr (- 1), [Log ''exception: libgcrypt version mismatch'' critical])"
proof -
  have h: "fst (Main (env0\<lparr>gcry_check_version := False\<rparr>) []) =
      Inl (Thrown (StdException ''libgcrypt version mismatch''))"
    by (simp add: Main_def InitGCrypt_def env0_def prog_defs)
  have t: "snd (Main (env0\<lparr>gcry_check_version := False\<rparr>) []) = []"
    by (simp add: Main_def InitGCrypt_def env0_def prog_defs)
  show ?thesis
    using C8_exception_logged_and_minus_one [OF h] h t by (simp add: exception_log_def)
qed

text \<open>
  C9. When the libgcrypt check passes, the options parse and \<open>--help\<close> or
  \<open>--version\<close> is given, the whole run consists of the two libgcrypt controls and one
  print (the options when \<open>--help\<close> is given, the version line otherwise), and the exit
  status is 0: logging is not initialized, no Config is constructed, and nothing of the
  authorization, the network or the sync happens.
\<close>

theorem C9_help_version_return_at_once:
  assumes "gcry_check_version E" and "parsed E = Some vm" and "vm_help vm \<or> vm_version vm"
  shows "main E =
     (Inr 0, [Gcry_control GCRYCTL_DISABLE_SECMEM, Gcry_control GCRYCTL_INITIALIZATION_FINISHED,
              if vm_help vm then Stdout_desc desc else Stdout_version])"
  using assms by (auto simp: main_def Main_def InitGCrypt_def prog_defs)

text \<open>
  C9, witness: a run with \<open>--help\<close>.
\<close>

theorem C9_help_version_return_at_once_witness:
  "main env_help =
     (Inr 0, [Gcry_control GCRYCTL_DISABLE_SECMEM, Gcry_control GCRYCTL_INITIALIZATION_FINISHED,
              Stdout_desc desc])"
proof -
  have h: "gcry_check_version env_help" "parsed env_help = Some (vm0\<lparr>vm_help := True\<rparr>)"
    "vm_help (vm0\<lparr>vm_help := True\<rparr>) \<or> vm_version (vm0\<lparr>vm_help := True\<rparr>)"
    by (simp_all add: env_help_def env0_def)
  from C9_help_version_return_at_once [OF h] show ?thesis by simp
qed

text \<open>
  C10. When the options parse and both \<open>--auth\<close> and \<open>--print-url\<close> are given, no
  event of the code exchange occurs: the listener of AuthCode is never opened,
  \<open>token.Auth\<close> is never called, nothing is set in or saved to the configuration. When
  moreover neither \<open>--help\<close> nor \<open>--version\<close> is given, \<open>Main\<close> either ends by an
  exception or prints the authorization URL as its last act and returns 0; and it does
  the latter when the libgcrypt check passes, no call throws and the configuration holds
  the redirect URI.
\<close>

theorem C10_print_url_only:
  assumes "parsed E = Some vm" and "vm_auth vm" and "vm_print_url vm"
  shows "list_all (\<lambda>e. \<not> code_exchange e) (snd (main E)) \<and>
         (\<not> vm_help vm \<and> \<not> vm_version vm \<longrightarrow>
            (\<exists>x. fst (Main E []) = Inl (Thrown x)) \<or>
            (\<exists>u. loaded_config E ''redirect-uri'' = Some (Str u) \<and> fst (Main E []) = Inr 0 \<and>
                 last (snd (Main E [])) =
                   Stdout (MakeAuthURL E (auth_id E vm) (auth_secret E vm) u))) \<and>
         (\<not> vm_help vm \<and> \<not> vm_version vm \<and> gcry_check_version E \<and>
          (\<forall>h e. raises E h e = None) \<and> loaded_config E ''redirect-uri'' = Some (Str u) \<longrightarrow>
            fst (main E) = Inr 0 \<and>
            last (snd (main E)) = Stdout (MakeAuthURL E (auth_id E vm) (auth_secret E vm) u))"
proof -
  have 1: "list_all (\<lambda>e. \<not> code_exchange e) (snd (main E))"
  proof (cases "vm_help vm \<or> vm_version vm")
    case True
    have "leads UNIV setup_ev {ret 0} (Main E)"
      by (rule Main_leads_early [OF _ assms(1) True]) simp
    then obtain ev where ev: "list_all setup_ev ev"
      and d: "(\<exists>a\<in>UNIV. Main E [] = (Inl a, ev)) \<or> (\<exists>k\<in>{ret 0}. Main E [] = k ev)"
      by (rule leads_D)
    from ev have "list_all (\<lambda>e. \<not> code_exchange e) ev"
      using not_code_exchange by (auto simp: list_all_iff)
    moreover from d have "snd (Main E []) = ev" by (auto simp: ret_def)
    ultimately show ?thesis
      using main_snd_cases [of E] exception_log_not_exchange by auto
  next
    case False
    obtain ev where ev: "list_all (\<lambda>e. setup_ev e \<or> auth_ev e) ev"
      and d: "(\<exists>a\<in>UNIV. Main E [] = (Inl a, ev)) \<or>
         (\<exists>u. loaded_config E ''redirect-uri'' = Some (Str u) \<and>
              Main E [] =
                (Inr 0, ev @ [Stdout (MakeAuthURL E (auth_id E vm) (auth_secret E vm) u)]))"
      by (rule Main_print_url [of E UNIV vm]) (use False assms in simp_all)
    from ev have "list_all (\<lambda>e. \<not> code_exchange e) ev"
      using not_code_exchange by (auto simp: list_all_iff)
    moreover have "\<not> code_exchange (Stdout s)" for s by (simp add: code_exchange_def)
    ultimately have "list_all (\<lambda>e. \<not> code_exchange e) (snd (Main E []))"
      using d by auto
    then show ?thesis
      using main_snd_cases [of E] exception_log_not_exchange by auto
  qed
  have 2: "(\<exists>x. fst (Main E []) = Inl (Thrown x)) \<or>
            (\<exists>u. loaded_config E ''redirect-uri'' = Some (Str u) \<and> fst (Main E []) = Inr 0 \<and>
                 last (snd (Main E [])) =
                   Stdout (MakeAuthURL E (auth_id E vm) (auth_secret E vm) u))"
    if h: "\<not> vm_help vm \<and> \<not> vm_version vm"
  proof -
    obtain ev where
    "(\<exists>a\<in>range Thrown. Main E [] = (Inl a, ev)) \<or>
         (\<exists>u. loaded_config E ''redirect-uri'' = Some (Str u) \<and>
              Main E [] =
                (Inr 0, ev @ [Stdout (MakeAuthURL E (auth_id E vm) (auth_secret E vm) u)]))"
    by (rule Main_print_url [of E "range Thrown" vm]) (use h assms in simp_all)
    then show ?thesis by auto
  qed
  have 3: "fst (main E) = Inr 0 \<and>
            last (snd (main E)) = Stdout (MakeAuthURL E (auth_id E vm) (auth_secret E vm) u)"
    if h: "\<not> vm_help vm \<and> \<not> vm_version vm \<and> gcry_check_version E \<and>
          (\<forall>h e. raises E h e = None) \<and> loaded_config E ''redirect-uri'' = Some (Str u)"
  proof -
  from h have s: "has_str (loaded_config E) ''redirect-uri''" by (simp add: has_str_def)
  obtain ev where
    "(\<exists>a\<in>{}. Main E [] = (Inl a, ev)) \<or>
         (\<exists>u. loaded_config E ''redirect-uri'' = Some (Str u) \<and>
              Main E [] =
                (Inr 0, ev @ [Stdout (MakeAuthURL E (auth_id E vm) (auth_secret E vm) u)]))"
    by (rule Main_print_url [of E "{}" vm]) (use h s assms in simp_all)
  with h have "Main E [] =
      (Inr 0, ev @ [Stdout (MakeAuthURL E (auth_id E vm) (auth_secret E vm) u)])"
    by auto
  then show ?thesis
    by (simp add: main_fst main_snd)
  qed
  from 1 2 3 show ?thesis by blast
qed

text \<open>
  C10, witness: a run with \<open>--auth --print-url\<close> prints the URL and returns 0.
\<close>

theorem C10_print_url_only_witness:
  "fst (main env_print) = Inr 0 \<and>
   last (snd (main env_print)) =
     Stdout ''https://accounts.google.com/o/oauth2/auth?client_id=app-id'' \<and>
   list_all (\<lambda>e. \<not> code_exchange e) (snd (main env_print))"
proof -
  let ?vm = "vm0\<lparr>vm_auth := True, vm_print_url := True\<rparr>"
  have h: "parsed env_print = Some ?vm" "vm_auth ?vm" "vm_print_url ?vm"
    by (simp_all add: env_print_def env0_def)
  have g: "\<not> vm_help ?vm \<and> \<not> vm_version ?vm \<and> gcry_check_version env_print \<and>
          (\<forall>h e. raises env_print h e = None) \<and>
          loaded_config env_print ''redirect-uri'' = Some (Str ''http://localhost:9898'')"
    by (simp add: env_print_def env0_def vm0_def)
  from C10_print_url_only [OF h, of "''http://localhost:9898''"] g
  show ?thesis by (simp add: auth_id_def auth_secret_def env_print_def env0_def vm0_def)
qed

end
